theory Spec2Isabelle
  imports Main
begin

section \<open>CloudFormation log utilities (taskcat/_cfn_logutils.py)\<close>

text \<open>
  The module \<^verbatim>\<open>_cfn_logutils.py\<close> fetches the events of a CloudFormation stack page
  by page, projects them into a reporting shape, and appends a report block per stack
  to a log file, descending into nested stacks.

  Python dictionaries whose keys the code tests or reads by name are association lists
  in insertion order; a missing key read by subscript is a \<open>KeyError\<close>. Exceptions are
  values of \<open>exn\<close>; a function that may raise returns \<open>exn + 'a\<close>. The external world
  (the provider API, the resource listing, the clock) is an abstract state \<open>'x\<close> that
  every external call reads and updates, so the same request may be answered
  differently at different times.
\<close>

subsection \<open>Data\<close>

type_synonym pydict = "(string \<times> string) list"

datatype exn =
    ClientError string
  | KeyError string
  | IndexError
  | OSError string
  | OtherError string

fun exn_str :: "exn \<Rightarrow> string" where
  "exn_str (ClientError m) = m"
| "exn_str (KeyError k) = [CHR 0x27] @ k @ [CHR 0x27]"
| "exn_str IndexError = ''list index out of range''"
| "exn_str (OSError m) = m"
| "exn_str (OtherError m) = m"

datatype level = INFO | WARNING | ERROR

datatype nametag = PASS | NAMETAG

type_synonym log_entry = "level \<times> nametag option \<times> string"

text \<open>The response dictionary of \<^verbatim>\<open>describe_stack_events\<close>: the code reads the keys
  \<^verbatim>\<open>"StackEvents"\<close> (by subscript) and \<^verbatim>\<open>"NextToken"\<close> (after a membership test).\<close>

record response =
  StackEvents :: "pydict list option"
  NextToken :: "string option"

text \<open>What \<^verbatim>\<open>CommonTools(stack_id).parse_stack_info()\<close> returns: the keys
  \<^verbatim>\<open>"stack_name"\<close> and \<^verbatim>\<open>"region"\<close>.\<close>

record stackinfo =
  stack_name :: string
  stack_region :: string

text \<open>An entry of the list \<^verbatim>\<open>CfnResourceTools.get_resources\<close> returns.\<close>

record resource =
  resourceType :: string
  physicalId :: string

text \<open>A stack of a test (\<^verbatim>\<open>stack["StackId"]\<close>), and a \<^verbatim>\<open>TestData\<close> object with the
  result of its method \<^verbatim>\<open>get_test_stacks()\<close>.\<close>

record stack =
  StackId :: string

record testdata =
  get_test_stacks :: "stack list"

text \<open>The collaborators that are not part of the module. The three that reach outside
  the process take the external state and return the new one. \<open>can_open\<close> and
  \<open>can_write\<close> say whether \<^verbatim>\<open>open(path, "a")\<close> and a \<^verbatim>\<open>write\<close> of a text on the file
  of a path succeed.\<close>

record 'x env =
  describe_stack_events ::
    "'x \<Rightarrow> string \<Rightarrow> string \<Rightarrow> string option \<Rightarrow> (exn + response) \<times> 'x"
  get_resources :: "'x \<Rightarrow> string \<Rightarrow> string \<Rightarrow> (exn + resource list) \<times> 'x"
  now_strftime :: "'x \<Rightarrow> string \<times> 'x"
  parse_stack_info :: "string \<Rightarrow> stackinfo"
  textwrap_fill :: "string \<Rightarrow> nat \<Rightarrow> string"
  tabulate :: "pydict list \<Rightarrow> string"
  can_open :: "string \<Rightarrow> bool"
  can_write :: "string \<Rightarrow> string \<Rightarrow> bool"

text \<open>The calls the module makes on the provider client, on the resource listing and
  on the file system, with their arguments.\<close>

datatype call =
    DescribeStackEvents string string "string option"
  | GetResources string string
  | Open string

text \<open>The state the module acts on: the external state, the files (path to content,
  \<open>None\<close> where no file exists), the records handed to the logger, and the calls made
  so far, in order.\<close>

record 'x world =
  ext :: 'x
  files :: "string \<Rightarrow> string option"
  logs :: "log_entry list"
  calls :: "call list"

definition NL :: string where
  "NL = [CHR 0x0A]"

definition TAB :: string where
  "TAB = [CHR 0x09]"

definition LOG :: "level \<Rightarrow> nametag option \<Rightarrow> string \<Rightarrow> 'x world \<Rightarrow> 'x world" where
  "LOG lv tag msg w = w\<lparr>logs := logs w @ [(lv, tag, msg)]\<rparr>"

subsection \<open>get_cfn_stack_events\<close>

text \<open>\<^verbatim>\<open>cfn_client.describe_stack_events(StackName=stackname[, NextToken=tok])\<close> on the
  client of the region.\<close>

definition call_describe ::
  "'x env \<Rightarrow> 'x world \<Rightarrow> string \<Rightarrow> string \<Rightarrow> string option \<Rightarrow> (exn + response) \<times> 'x world" where
  "call_describe E w region stackname tok =
     (case describe_stack_events E (ext w) region stackname tok of
        (r, x') \<Rightarrow>
          (r, w\<lparr>ext := x',
                 calls := calls w @ [DescribeStackEvents region stackname tok]\<rparr>))"

text \<open>The \<^verbatim>\<open>while "NextToken" in response\<close> loop inside the \<^verbatim>\<open>try\<close>. It returns the
  exception that left the loop, if any, together with the list \<^verbatim>\<open>stack_events\<close> as
  extended so far. The loop runs for as long as responses carry a token: \<open>None\<close> is the
  run that never ends.\<close>

partial_function (option) describe_loop ::
  "'x env \<Rightarrow> string \<Rightarrow> string \<Rightarrow> response \<Rightarrow> pydict list \<Rightarrow> 'x world
     \<Rightarrow> (exn option \<times> pydict list \<times> 'x world) option" where
  "describe_loop E stackname region response stack_events w =
     (case NextToken response of
        None \<Rightarrow> Some (None, stack_events, w)
      | Some tok \<Rightarrow>
          (case call_describe E w region stackname (Some tok) of
             (Inl e, w1) \<Rightarrow> Some (Some e, stack_events, w1)
           | (Inr response', w1) \<Rightarrow>
               (case StackEvents response' of
                  None \<Rightarrow> Some (Some (KeyError ''StackEvents''), stack_events, w1)
                | Some evs \<Rightarrow>
                    describe_loop E stackname region response' (stack_events @ evs) w1)))"

text \<open>The body of the \<^verbatim>\<open>try\<close>: the first call, without a token, then the loop.\<close>

definition try_describe ::
  "'x env \<Rightarrow> 'x world \<Rightarrow> string \<Rightarrow> string \<Rightarrow> (exn option \<times> pydict list \<times> 'x world) option" where
  "try_describe E w stackname region =
     (case call_describe E w region stackname None of
        (Inl e, w1) \<Rightarrow> Some (Some e, [], w1)
      | (Inr response, w1) \<Rightarrow>
          (case StackEvents response of
             None \<Rightarrow> Some (Some (KeyError ''StackEvents''), [], w1)
           | Some evs \<Rightarrow> describe_loop E stackname region response ([] @ evs) w1))"

definition events_error_msg :: "string \<Rightarrow> string \<Rightarrow> exn \<Rightarrow> string" where
  "events_error_msg stackname region e =
     ''Error trying to get the events for stack ['' @ stackname @ ''] in region [''
       @ region @ '']'' @ [CHR 0x08] @ '' '' @ exn_str e"

text \<open>\<^verbatim>\<open>except ClientError as e\<close> logs and goes on to \<^verbatim>\<open>return stack_events\<close>; an
  exception of any other class leaves the function.\<close>

definition get_cfn_stack_events ::
  "'x env \<Rightarrow> 'x world \<Rightarrow> string \<Rightarrow> string \<Rightarrow> ((exn + pydict list) \<times> 'x world) option" where
  "get_cfn_stack_events E w stackname region =
     (case try_describe E w stackname region of
        None \<Rightarrow> None
      | Some (None, stack_events, w1) \<Rightarrow> Some (Inr stack_events, w1)
      | Some (Some (ClientError m), stack_events, w1) \<Rightarrow>
          Some (Inr stack_events,
                LOG ERROR None (events_error_msg stackname region (ClientError m)) w1)
      | Some (Some e, stack_events, w1) \<Rightarrow> Some (Inl e, w1))"

subsection \<open>get_cfnlogs\<close>

text \<open>The dictionary \<^verbatim>\<open>event_details\<close> built for one event: four keys read by
  subscript, then \<^verbatim>\<open>"ResourceStatusReason"\<close> after the membership test.\<close>

definition event_details :: "pydict \<Rightarrow> exn + pydict" where
  "event_details event =
     (case map_of event ''Timestamp'' of
        None \<Rightarrow> Inl (KeyError ''Timestamp'')
      | Some ts \<Rightarrow>
     (case map_of event ''ResourceStatus'' of
        None \<Rightarrow> Inl (KeyError ''ResourceStatus'')
      | Some st \<Rightarrow>
     (case map_of event ''ResourceType'' of
        None \<Rightarrow> Inl (KeyError ''ResourceType'')
      | Some ty \<Rightarrow>
     (case map_of event ''LogicalResourceId'' of
        None \<Rightarrow> Inl (KeyError ''LogicalResourceId'')
      | Some lid \<Rightarrow>
          Inr [(''TimeStamp'', ts), (''ResourceStatus'', st), (''ResourceType'', ty),
               (''LogicalResourceId'', lid),
               (''ResourceStatusReason'',
                  (case map_of event ''ResourceStatusReason'' of
                     Some r \<Rightarrow> r
                   | None \<Rightarrow> ''''))]))))"

text \<open>The loop \<^verbatim>\<open>for event in stack_events\<close> with the list \<^verbatim>\<open>events\<close> it appends to.\<close>

fun collect_events :: "pydict list \<Rightarrow> pydict list \<Rightarrow> exn + pydict list" where
  "collect_events [] events = Inr events"
| "collect_events (event # rest) events =
     (case event_details event of
        Inl e \<Rightarrow> Inl e
      | Inr d \<Rightarrow> collect_events rest (events @ [d]))"

definition get_cfnlogs ::
  "'x env \<Rightarrow> 'x world \<Rightarrow> string \<Rightarrow> string \<Rightarrow> ((exn + pydict list) \<times> 'x world) option" where
  "get_cfnlogs E w stackname region =
     (case get_cfn_stack_events E
             (LOG INFO None (''Collecting logs for '' @ stackname @ [CHR 0x22] @ NL) w)
             stackname region of
        None \<Rightarrow> None
      | Some (Inl e, w1) \<Rightarrow> Some (Inl e, w1)
      | Some (Inr stack_events, w1) \<Rightarrow> Some (collect_events stack_events [], w1))"

subsection \<open>write_logs\<close>

text \<open>Lines 115 to 121: the reason shown for the stack, from \<^verbatim>\<open>cfnlogs[0]\<close>.\<close>

definition outcome_reason :: "pydict list \<Rightarrow> exn + string" where
  "outcome_reason cfnlogs =
     (case cfnlogs of
        [] \<Rightarrow> Inl IndexError
      | first # _ \<Rightarrow>
          (case map_of first ''ResourceStatus'' of
             None \<Rightarrow> Inl (KeyError ''ResourceStatus'')
           | Some st \<Rightarrow>
               if st \<noteq> ''CREATE_COMPLETE'' then
                 (case map_of first ''ResourceStatusReason'' of
                    Some r \<Rightarrow> Inr r
                  | None \<Rightarrow> Inr ''Unknown'')
               else Inr ''Stack launch was successful''))"

definition call_now :: "'x env \<Rightarrow> 'x world \<Rightarrow> string \<times> 'x world" where
  "call_now E w = (case now_strftime E (ext w) of (t, x') \<Rightarrow> (t, w\<lparr>ext := x'\<rparr>))"

definition call_get_resources ::
  "'x env \<Rightarrow> 'x world \<Rightarrow> string \<Rightarrow> string \<Rightarrow> (exn + resource list) \<times> 'x world" where
  "call_get_resources E w stackname region =
     (case get_resources E (ext w) stackname region of
        (r, x') \<Rightarrow>
          (r, w\<lparr>ext := x', calls := calls w @ [GetResources stackname region]\<rparr>))"

text \<open>Lines 123 to 143: the message for the console and the two log records.\<close>

definition report_msg ::
  "'x env \<Rightarrow> string \<Rightarrow> string \<Rightarrow> string \<Rightarrow> string \<Rightarrow> string \<Rightarrow> string" where
  "report_msg E stackname region logpath tested_on reason =
     ''StackName: '' @ stackname @ '' '' @ NL
     @ TAB @ '' |Region: '' @ region @ NL
     @ TAB @ '' |Logging to: '' @ logpath @ NL
     @ TAB @ '' |Tested on: '' @ tested_on @ NL
     @ replicate 90 (CHR ''-'') @ NL
     @ ''ResourceStatusReason: '' @ NL
     @ textwrap_fill E reason 85 @ NL
     @ replicate 90 (CHR ''='') @ NL"

definition announce ::
  "'x env \<Rightarrow> 'x world \<Rightarrow> string \<Rightarrow> string \<Rightarrow> string \<Rightarrow> string \<Rightarrow> 'x world" where
  "announce E w stackname region logpath reason =
     (case call_now E w of
        (tested_on, w1) \<Rightarrow>
          (let msg = report_msg E stackname region logpath tested_on reason;
               w2 = (if reason = ''Stack launch was successful''
                     then LOG INFO (Some PASS) msg w1
                     else LOG ERROR None msg w1)
           in LOG WARNING (Some NAMETAG) ''|GENERATING REPORTS'' w2))"

text \<open>The file: \<^verbatim>\<open>open(logpath, "a")\<close> creates the file where there is none and fails
  where the path cannot be opened. \<^verbatim>\<open>log_output.write(s)\<close> puts the text at the end, or
  raises and leaves the file with what the writes before it have put there.\<close>

definition content :: "'x world \<Rightarrow> string \<Rightarrow> string" where
  "content w path = (case files w path of None \<Rightarrow> [] | Some c \<Rightarrow> c)"

definition fopen_append :: "'x env \<Rightarrow> 'x world \<Rightarrow> string \<Rightarrow> (exn + unit) \<times> 'x world" where
  "fopen_append E w path =
     (if can_open E path
      then (Inr (), w\<lparr>files := (files w)(path \<mapsto> content w path),
                       calls := calls w @ [Open path]\<rparr>)
      else (Inl (OSError path), w\<lparr>calls := calls w @ [Open path]\<rparr>))"

definition fwrite :: "'x env \<Rightarrow> string \<Rightarrow> string \<Rightarrow> 'x world \<Rightarrow> (exn + unit) \<times> 'x world" where
  "fwrite E path s w =
     (if can_write E path s
      then (Inr (), w\<lparr>files := (files w)(path \<mapsto> content w path @ s)\<rparr>)
      else (Inl (OSError path), w))"

text \<open>Consecutive calls of \<^verbatim>\<open>log_output.write\<close>: the first one that raises ends them.\<close>

fun fwrite_each ::
  "'x env \<Rightarrow> string \<Rightarrow> string list \<Rightarrow> 'x world \<Rightarrow> (exn + unit) \<times> 'x world" where
  "fwrite_each E path [] w = (Inr (), w)"
| "fwrite_each E path (s # rest) w =
     (case fwrite E path s w of
        (Inl e, w1) \<Rightarrow> (Inl e, w1)
      | (Inr u, w1) \<Rightarrow> fwrite_each E path rest w1)"

text \<open>Lines 144 to 184: the writes inside \<^verbatim>\<open>with open(logpath, "a")\<close>, in order; the
  clock is read while the argument of the last but one write is evaluated.\<close>

definition report_head :: "'x env \<Rightarrow> string \<Rightarrow> string \<Rightarrow> string \<Rightarrow> pydict list \<Rightarrow> string list" where
  "report_head E region stackname reason cfnlogs =
     [replicate 77 (CHR ''-'') @ NL,
      ''Region: '' @ region @ NL,
      ''StackName: '' @ stackname @ NL,
      replicate 77 (CHR ''*'') @ NL,
      ''ResourceStatusReason:  '' @ NL,
      textwrap_fill E reason 85 @ NL,
      replicate 77 (CHR ''*'') @ NL,
      replicate 77 (CHR ''*'') @ NL,
      ''Events:  '' @ NL,
      tabulate E cfnlogs,
      NL @ replicate 77 (CHR ''*'') @ NL,
      replicate 77 (CHR ''-'') @ NL]"

definition report_foot :: "string \<Rightarrow> string list" where
  "report_foot tested_on =
     [''Tested on: '' @ tested_on @ NL,
      replicate 77 (CHR ''-'') @ NL @ NL]"

definition write_report ::
  "'x env \<Rightarrow> 'x world \<Rightarrow> string \<Rightarrow> string \<Rightarrow> string \<Rightarrow> string \<Rightarrow> pydict list
     \<Rightarrow> (exn + unit) \<times> 'x world" where
  "write_report E w logpath region stackname reason cfnlogs =
     (case fopen_append E w logpath of
        (Inl e, w1) \<Rightarrow> (Inl e, w1)
      | (Inr u, w1) \<Rightarrow>
          (case fwrite_each E logpath (report_head E region stackname reason cfnlogs) w1 of
             (Inl e, w2) \<Rightarrow> (Inl e, w2)
           | (Inr u, w2) \<Rightarrow>
               (case call_now E w2 of
                  (tested_on, w3) \<Rightarrow> fwrite_each E logpath (report_foot tested_on) w3)))"

text \<open>\<^verbatim>\<open>write_logs\<close> calls itself for nested stacks, to a depth that the resources
  returned by the collaborator decide. The first argument bounds the depth of the
  calls: \<open>None\<close> is a run that needs more (or whose event loop never ends).
  \<open>write_logs_resources\<close> is the loop \<^verbatim>\<open>for resource in resources\<close>.\<close>

fun write_logs ::
    "nat \<Rightarrow> 'x env \<Rightarrow> 'x world \<Rightarrow> string \<Rightarrow> string \<Rightarrow> ((exn + unit) \<times> 'x world) option"
  and write_logs_resources ::
    "nat \<Rightarrow> 'x env \<Rightarrow> 'x world \<Rightarrow> resource list \<Rightarrow> string \<Rightarrow> ((exn + unit) \<times> 'x world) option"
where
  "write_logs 0 E w stack_id logpath = None"
| "write_logs (Suc n) E w stack_id logpath =
     (let stackinfo = parse_stack_info E stack_id;
          stackname = stack_name stackinfo;
          region = stack_region stackinfo
      in case get_cfnlogs E w stackname region of
           None \<Rightarrow> None
         | Some (Inl e, w1) \<Rightarrow> Some (Inl e, w1)
         | Some (Inr cfnlogs, w1) \<Rightarrow>
             if cfnlogs \<noteq> [] then
               (case outcome_reason cfnlogs of
                  Inl e \<Rightarrow> Some (Inl e, w1)
                | Inr reason \<Rightarrow>
                    (let w2 = announce E w1 stackname region logpath reason
                     in case write_report E w2 logpath region stackname reason cfnlogs of
                          (Inl e, w3) \<Rightarrow> Some (Inl e, w3)
                        | (Inr u, w3) \<Rightarrow>
                            (case call_get_resources E w3 stackname region of
                               (Inl e, w4) \<Rightarrow> Some (Inl e, w4)
                             | (Inr resources, w4) \<Rightarrow>
                                 write_logs_resources n E w4 resources logpath)))
             else
               Some (Inr (),
                 LOG ERROR None
                   (''No event logs found. Something went wrong at describe event call.'' @ NL)
                   w1))"
| "write_logs_resources n E w [] logpath = Some (Inr (), w)"
| "write_logs_resources n E w (resource # rest) logpath =
     (if resourceType resource = ''AWS::CloudFormation::Stack'' then
        (case write_logs n E w (physicalId resource) logpath of
           None \<Rightarrow> None
         | Some (Inl e, w1) \<Rightarrow> Some (Inl e, w1)
         | Some (Inr u, w1) \<Rightarrow> write_logs_resources n E w1 rest logpath)
      else write_logs_resources n E w rest logpath)"

subsection \<open>createcfnlogs\<close>

definition test_logpath :: "string \<Rightarrow> string \<Rightarrow> string \<Rightarrow> string" where
  "test_logpath logpath stackname region =
     logpath @ ''/'' @ stackname @ ''-'' @ region @ ''-'' @ ''cfnlogs'' @ ''.txt''"

text \<open>The inner loop \<^verbatim>\<open>for stack in test.get_test_stacks()\<close> and the outer loop
  \<^verbatim>\<open>for test in testdata_list\<close>.\<close>

fun createcfnlogs_stacks ::
  "nat \<Rightarrow> 'x env \<Rightarrow> 'x world \<Rightarrow> stack list \<Rightarrow> string \<Rightarrow> ((exn + unit) \<times> 'x world) option" where
  "createcfnlogs_stacks n E w [] logpath = Some (Inr (), w)"
| "createcfnlogs_stacks n E w (stack # rest) logpath =
     (let stackinfo = parse_stack_info E (StackId stack);
          stackname = stack_name stackinfo;
          region = stack_region stackinfo
      in case write_logs n E w (StackId stack) (test_logpath logpath stackname region) of
           None \<Rightarrow> None
         | Some (Inl e, w1) \<Rightarrow> Some (Inl e, w1)
         | Some (Inr u, w1) \<Rightarrow> createcfnlogs_stacks n E w1 rest logpath)"

fun createcfnlogs_tests ::
  "nat \<Rightarrow> 'x env \<Rightarrow> 'x world \<Rightarrow> testdata list \<Rightarrow> string \<Rightarrow> ((exn + unit) \<times> 'x world) option" where
  "createcfnlogs_tests n E w [] logpath = Some (Inr (), w)"
| "createcfnlogs_tests n E w (test # rest) logpath =
     (case createcfnlogs_stacks n E w (get_test_stacks test) logpath of
        None \<Rightarrow> None
      | Some (Inl e, w1) \<Rightarrow> Some (Inl e, w1)
      | Some (Inr u, w1) \<Rightarrow> createcfnlogs_tests n E w1 rest logpath)"

definition createcfnlogs ::
  "nat \<Rightarrow> 'x env \<Rightarrow> 'x world \<Rightarrow> testdata list \<Rightarrow> string \<Rightarrow> ((exn + unit) \<times> 'x world) option" where
  "createcfnlogs n E w testdata_list logpath =
     createcfnlogs_tests n E (LOG INFO None ''Collecting CloudFormation Logs'' w)
       testdata_list logpath"

section \<open>Vocabulary of the properties\<close>

subsection \<open>An exchange with the provider\<close>

text \<open>The events of a page, and the course of the calls for one stack:
  \<open>exchange E region stackname x pending pages failure x'\<close> says that, from the external
  state \<open>x\<close>, the provider answers the pending call and the calls that follow with the
  responses \<open>pages\<close>, in this order, each with its list of events, and each with a token
  exactly when a further call follows; that the call after the last of them raises
  \<open>failure\<close> when there is one, and that no call follows a response without a token;
  \<open>x'\<close> is the external state after the last call. \<open>pending\<close> is \<open>Some a\<close> when a call
  with the token argument \<open>a\<close> is due (\<open>Some None\<close> for the first call, which carries no
  token) and \<open>None\<close> when none is. \<open>requests\<close> lists the calls of such an exchange.\<close>

definition page_events :: "response \<Rightarrow> pydict list" where
  "page_events p = (case StackEvents p of None \<Rightarrow> [] | Some evs \<Rightarrow> evs)"

fun exchange ::
  "'x env \<Rightarrow> string \<Rightarrow> string \<Rightarrow> 'x \<Rightarrow> string option option \<Rightarrow> response list \<Rightarrow> exn option \<Rightarrow> 'x \<Rightarrow> bool" where
  "exchange E region stackname x None pages failure x' =
     (pages = [] \<and> failure = None \<and> x' = x)"
| "exchange E region stackname x (Some a) [] failure x' =
     (case failure of
        None \<Rightarrow> False
      | Some e \<Rightarrow> describe_stack_events E x region stackname a = (Inl e, x'))"
| "exchange E region stackname x (Some a) (p # ps) failure x' =
     (case describe_stack_events E x region stackname a of
        (Inl e, x1) \<Rightarrow> False
      | (Inr q, x1) \<Rightarrow>
          q = p \<and> StackEvents p \<noteq> None
          \<and> exchange E region stackname x1 (map_option Some (NextToken p)) ps failure x')"

fun requests :: "string \<Rightarrow> string \<Rightarrow> string option option \<Rightarrow> response list \<Rightarrow> call list" where
  "requests region stackname None pages = []"
| "requests region stackname (Some a) [] = [DescribeStackEvents region stackname a]"
| "requests region stackname (Some a) (p # ps) =
     DescribeStackEvents region stackname a
       # requests region stackname (map_option Some (NextToken p)) ps"

text \<open>A list of calls that are all requests for events.\<close>

definition describes_only :: "call list \<Rightarrow> bool" where
  "describes_only cs =
     list_all (\<lambda>c. case c of DescribeStackEvents _ _ _ \<Rightarrow> True | _ \<Rightarrow> False) cs"

subsection \<open>Keys, sequences of reports, report blocks\<close>

text \<open>The keys that \<open>event_details\<close> reads by subscript.\<close>

definition mandatory_keys :: "string list" where
  "mandatory_keys = [''Timestamp'', ''ResourceStatus'', ''ResourceType'', ''LogicalResourceId'']"

text \<open>One call of \<open>write_logs\<close> after the other for a list of pairs of a stack identifier
  and a log path, in the order of the list; the first exception ends the sequence and
  is the result.\<close>

fun write_logs_seq ::
  "nat \<Rightarrow> 'x env \<Rightarrow> 'x world \<Rightarrow> (string \<times> string) list \<Rightarrow> ((exn + unit) \<times> 'x world) option" where
  "write_logs_seq n E w [] = Some (Inr (), w)"
| "write_logs_seq n E w ((stack_id, logpath) # rest) =
     (case write_logs n E w stack_id logpath of
        None \<Rightarrow> None
      | Some (Inl e, w1) \<Rightarrow> Some (Inl e, w1)
      | Some (Inr u, w1) \<Rightarrow> write_logs_seq n E w1 rest)"

text \<open>The text of one report, written out: the header with region and stack name, the
  reason wrapped to 85 columns, the table of the events, and the footer with the time.\<close>

definition report_block ::
  "'x env \<Rightarrow> string \<Rightarrow> string \<Rightarrow> string \<Rightarrow> pydict list \<Rightarrow> string \<Rightarrow> string" where
  "report_block E region stackname reason cfnlogs tested_on =
     replicate 77 (CHR ''-'') @ NL
     @ ''Region: '' @ region @ NL
     @ ''StackName: '' @ stackname @ NL
     @ replicate 77 (CHR ''*'') @ NL
     @ ''ResourceStatusReason:  '' @ NL
     @ textwrap_fill E reason 85 @ NL
     @ replicate 77 (CHR ''*'') @ NL
     @ replicate 77 (CHR ''*'') @ NL
     @ ''Events:  '' @ NL
     @ tabulate E cfnlogs @ NL
     @ replicate 77 (CHR ''*'') @ NL
     @ replicate 77 (CHR ''-'') @ NL
     @ ''Tested on: '' @ tested_on @ NL
     @ replicate 77 (CHR ''-'') @ NL
     @ NL"

subsection \<open>A tree of stacks\<close>



text \<open>Nested stacks form a tree. A node is a stack by its identifier, with the pages of
  events the provider has for it and the message of the \<open>ClientError\<close> that ends the
  pages, if one does. \<open>Silent\<close> is a stack without any event. \<open>Stack\<close> is a stack with
  events: it has, further, the two times the clock shows for its report, its resources
  as the listing gives them, and the trees of its nested stacks.\<close>

datatype stack_tree =
    Silent string "response list" "string option"
  | Stack string "response list" "string option" string string "resource list"
      "stack_tree list"






subsection \<open>A small provider\<close>

text \<open>An environment to evaluate the functions on: the stacks \<open>parent\<close> and \<open>top\<close> with one
  event each and nested stacks among their resources, \<open>childA\<close> with a failed event,
  \<open>paged\<close> with events on three pages, \<open>broken\<close> whose second page is refused,
  \<open>rolling\<close> with one event that has no reason,
  \<open>offline\<close> that cannot be reached; any other stack is unknown to the provider. The
  external state counts the calls answered. Every path can be opened; on the path
  \<open>full\<close> the write of the line \<open>Events:\<close> fails.\<close>

definition demo_event :: "string \<Rightarrow> string \<Rightarrow> string option \<Rightarrow> pydict" where
  "demo_event lid st reason =
     [(''Timestamp'', ''t''), (''ResourceStatus'', st), (''ResourceType'', ''AWS::S3::Bucket''),
      (''LogicalResourceId'', lid)]
     @ (case reason of None \<Rightarrow> [] | Some r \<Rightarrow> [(''ResourceStatusReason'', r)])"

definition demo_describe :: "nat \<Rightarrow> string \<Rightarrow> string \<Rightarrow> string option \<Rightarrow> (exn + response) \<times> nat" where
  "demo_describe x region stackname tok =
     (if stackname = ''parent'' \<or> stackname = ''top'' then
        Inr \<lparr>StackEvents = Some [demo_event ''a'' ''CREATE_COMPLETE'' None], NextToken = None\<rparr>
      else if stackname = ''childA'' then
        Inr \<lparr>StackEvents = Some [demo_event ''b'' ''CREATE_FAILED'' (Some ''Resource X failed'')],
             NextToken = None\<rparr>
      else if stackname = ''paged'' then
        (case tok of
           None \<Rightarrow> Inr \<lparr>StackEvents = Some [demo_event ''e1'' ''CREATE_COMPLETE'' None],
                        NextToken = Some ''t1''\<rparr>
         | Some t \<Rightarrow>
             if t = ''t1'' then
               Inr \<lparr>StackEvents = Some [demo_event ''e2'' ''CREATE_COMPLETE'' None,
                                        demo_event ''e3'' ''CREATE_IN_PROGRESS'' None],
                    NextToken = Some ''t2''\<rparr>
             else if t = ''t2'' then
               Inr \<lparr>StackEvents = Some [demo_event ''e4'' ''CREATE_IN_PROGRESS'' (Some ''User Initiated'')],
                    NextToken = None\<rparr>
             else Inl (ClientError ''ValidationError''))
      else if stackname = ''broken'' then
        (case tok of
           None \<Rightarrow> Inr \<lparr>StackEvents = Some [demo_event ''e1'' ''CREATE_COMPLETE'' None],
                        NextToken = Some ''t1''\<rparr>
         | Some t \<Rightarrow> Inl (ClientError ''Throttling''))
      else if stackname = ''rolling'' then
        Inr \<lparr>StackEvents = Some [demo_event ''c'' ''ROLLBACK_IN_PROGRESS'' None],
             NextToken = None\<rparr>
      else if stackname = ''offline'' then Inl (OtherError ''EndpointConnectionError'')
      else Inl (ClientError ''ValidationError''),
      Suc x)"

definition demo_resources :: "nat \<Rightarrow> string \<Rightarrow> string \<Rightarrow> (exn + resource list) \<times> nat" where
  "demo_resources x stackname region =
     (if stackname = ''parent'' then
        Inr [\<lparr>resourceType = ''AWS::CloudFormation::Stack'', physicalId = ''childA''\<rparr>,
             \<lparr>resourceType = ''AWS::S3::Bucket'', physicalId = ''bucket''\<rparr>,
             \<lparr>resourceType = ''AWS::CloudFormation::Stack'', physicalId = ''childB''\<rparr>]
      else if stackname = ''top'' then
        Inr [\<lparr>resourceType = ''AWS::CloudFormation::Stack'', physicalId = ''childA''\<rparr>]
      else Inr [],
      Suc x)"

definition demo :: "nat env" where
  "demo =
     \<lparr>describe_stack_events = demo_describe,
      get_resources = demo_resources,
      now_strftime = (\<lambda>x. (''now'', Suc x)),
      parse_stack_info = (\<lambda>stack_id. \<lparr>stack_name = stack_id, stack_region = ''eu''\<rparr>),
      textwrap_fill = (\<lambda>s n. s),
      tabulate = (\<lambda>cfnlogs. concat (map (\<lambda>d. case map_of d ''ResourceStatus'' of
                                                Some st \<Rightarrow> st | None \<Rightarrow> []) cfnlogs)),
      can_open = (\<lambda>path. True),
      can_write = (\<lambda>path s. \<not> (path = ''full'' \<and> take 7 s = ''Events:''))\<rparr>"

definition w0 :: "nat world" where
  "w0 = \<lparr>ext = 0, files = (\<lambda>path. None), logs = [], calls = []\<rparr>"


section \<open>Properties\<close>

subsection \<open>The reason shown for a stack\<close>

text \<open>
  Claim C1. For a non-empty list of normalized events whose first event has the status
  \<open>st\<close>: the reason is \<open>Stack launch was successful\<close> when \<open>st\<close> is \<open>CREATE_COMPLETE\<close>, and
  for any other status the \<open>ResourceStatusReason\<close> of that first event, or \<open>Unknown\<close>
  where the key is absent.
\<close>

theorem outcome_reason_first_event:
  assumes "map_of first ''ResourceStatus'' = Some st"
  shows "outcome_reason (first # rest) =
           Inr (if st = ''CREATE_COMPLETE'' then ''Stack launch was successful''
                else (case map_of first ''ResourceStatusReason'' of
                        Some r \<Rightarrow> r
                      | None \<Rightarrow> ''Unknown''))"
  using assms by (simp add: outcome_reason_def split: option.split)

theorem outcome_reason_first_event_witness:
  "map_of [(''ResourceStatus'', ''CREATE_FAILED'')] ''ResourceStatus'' = Some ''CREATE_FAILED''
   \<and> outcome_reason [[(''ResourceStatus'', ''CREATE_FAILED'')]] = Inr ''Unknown''"
  using outcome_reason_first_event
          [of "[(''ResourceStatus'', ''CREATE_FAILED'')]" "''CREATE_FAILED''" "[]"]
  by simp

subsection \<open>The pages of events\<close>

lemma describe_loop_exchange:
  "exchange E region stackname (ext w) (map_option Some (NextToken response)) pages failure x'
   \<Longrightarrow> describe_loop E stackname region response acc w =
         Some (failure, acc @ concat (map page_events pages),
               w\<lparr>ext := x',
                 calls := calls w @ requests region stackname
                                      (map_option Some (NextToken response)) pages\<rparr>)"
proof (induction pages arbitrary: response acc w)
  case Nil
  show ?case
  proof (cases "NextToken response")
    case None
    with Nil show ?thesis by (subst describe_loop.simps) simp
  next
    case (Some tok)
    with Nil show ?thesis
      by (subst describe_loop.simps) (auto simp: call_describe_def split: option.splits)
  qed
next
  case (Cons p ps)
  then obtain tok where tok: "NextToken response = Some tok"
    by (cases "NextToken response") auto
  from Cons.prems tok obtain x1 where
    call: "describe_stack_events E (ext w) region stackname (Some tok) = (Inr p, x1)"
    and evs: "StackEvents p \<noteq> None"
    and rest: "exchange E region stackname x1 (map_option Some (NextToken p)) ps failure x'"
    by (auto split: prod.splits sum.splits)
  from evs obtain evs' where evs': "StackEvents p = Some evs'" by auto
  define w1 where "w1 = w\<lparr>ext := x1, calls := calls w @ [DescribeStackEvents region stackname (Some tok)]\<rparr>"
  have "describe_loop E stackname region p (acc @ evs') w1 =
          Some (failure, (acc @ evs') @ concat (map page_events ps),
                w1\<lparr>ext := x',
                   calls := calls w1 @ requests region stackname
                                         (map_option Some (NextToken p)) ps\<rparr>)"
    by (rule Cons.IH) (simp add: rest w1_def)
  then show ?case
    by (subst describe_loop.simps)
       (simp add: tok call call_describe_def evs' page_events_def w1_def)
qed

lemma try_describe_exchange:
  assumes "exchange E region stackname (ext w) (Some None) pages failure x'"
  shows "try_describe E w stackname region =
           Some (failure, concat (map page_events pages),
                 w\<lparr>ext := x', calls := calls w @ requests region stackname (Some None) pages\<rparr>)"
proof (cases pages)
  case Nil
  with assms show ?thesis
    by (auto simp: try_describe_def call_describe_def split: option.splits)
next
  case (Cons p ps)
  with assms obtain x1 where
    call: "describe_stack_events E (ext w) region stackname None = (Inr p, x1)"
    and evs: "StackEvents p \<noteq> None"
    and rest: "exchange E region stackname x1 (map_option Some (NextToken p)) ps failure x'"
    by (auto split: prod.splits sum.splits)
  from evs obtain evs' where evs': "StackEvents p = Some evs'" by auto
  define w1 where "w1 = w\<lparr>ext := x1, calls := calls w @ [DescribeStackEvents region stackname None]\<rparr>"
  have "describe_loop E stackname region p ([] @ evs') w1 =
          Some (failure, ([] @ evs') @ concat (map page_events ps),
                w1\<lparr>ext := x',
                   calls := calls w1 @ requests region stackname
                                         (map_option Some (NextToken p)) ps\<rparr>)"
    by (rule describe_loop_exchange) (simp add: rest w1_def)
  then show ?thesis
    by (simp add: try_describe_def call call_describe_def evs' page_events_def Cons w1_def)
qed

lemma requests_length:
  "exchange E region stackname x pending pages None x' \<Longrightarrow>
     length (requests region stackname pending pages) = length pages"
  by (induction E region stackname x pending pages "None :: exn option" x' rule: exchange.induct)
     (auto split: prod.splits sum.splits)

lemma requests_length_failure:
  "exchange E region stackname x pending pages (Some e) x' \<Longrightarrow>
     length (requests region stackname pending pages) = Suc (length pages)"
  by (induction E region stackname x pending pages "Some e" x' rule: exchange.induct)
     (auto split: prod.splits sum.splits)

text \<open>
  Claim C2. When the events of a stack come on the pages \<open>pages\<close>, every page but the last
  with a continuation token, \<open>get_cfn_stack_events\<close> returns the events of all pages, in
  the order of the pages, and makes one call per page: the first without a token, each
  later one with the token of the page before, and none after the page without token.
\<close>

theorem get_cfn_stack_events_pages:
  assumes "exchange E region stackname (ext w) (Some None) pages None x'"
  shows "get_cfn_stack_events E w stackname region =
           Some (Inr (concat (map page_events pages)),
                 w\<lparr>ext := x', calls := calls w @ requests region stackname (Some None) pages\<rparr>)
         \<and> length (requests region stackname (Some None) pages) = length pages"
  using requests_length [OF assms]
  by (simp add: get_cfn_stack_events_def try_describe_exchange [OF assms])

theorem get_cfn_stack_events_pages_witness:
  "exchange demo ''eu'' ''paged'' (ext w0) (Some None)
     [\<lparr>StackEvents = Some [demo_event ''e1'' ''CREATE_COMPLETE'' None], NextToken = Some ''t1''\<rparr>,
      \<lparr>StackEvents = Some [demo_event ''e2'' ''CREATE_COMPLETE'' None,
                                        demo_event ''e3'' ''CREATE_IN_PROGRESS'' None], NextToken = Some ''t2''\<rparr>,
      \<lparr>StackEvents = Some [demo_event ''e4'' ''CREATE_IN_PROGRESS'' (Some ''User Initiated'')], NextToken = None\<rparr>]
     None 3
   \<and> get_cfn_stack_events demo w0 ''paged'' ''eu'' =
       Some (Inr [demo_event ''e1'' ''CREATE_COMPLETE'' None,
                  demo_event ''e2'' ''CREATE_COMPLETE'' None,
                  demo_event ''e3'' ''CREATE_IN_PROGRESS'' None,
                  demo_event ''e4'' ''CREATE_IN_PROGRESS'' (Some ''User Initiated'')],
             \<lparr>ext = 3, files = (\<lambda>path. None), logs = [],
              calls = [DescribeStackEvents ''eu'' ''paged'' None,
                       DescribeStackEvents ''eu'' ''paged'' (Some ''t1''),
                       DescribeStackEvents ''eu'' ''paged'' (Some ''t2'')]\<rparr>)"
proof -
  have h: "exchange demo ''eu'' ''paged'' (ext w0) (Some None)
     [\<lparr>StackEvents = Some [demo_event ''e1'' ''CREATE_COMPLETE'' None], NextToken = Some ''t1''\<rparr>,
      \<lparr>StackEvents = Some [demo_event ''e2'' ''CREATE_COMPLETE'' None,
                                        demo_event ''e3'' ''CREATE_IN_PROGRESS'' None], NextToken = Some ''t2''\<rparr>,
      \<lparr>StackEvents = Some [demo_event ''e4'' ''CREATE_IN_PROGRESS'' (Some ''User Initiated'')], NextToken = None\<rparr>]
     None 3"
    by (simp add: demo_def demo_describe_def w0_def numeral_3_eq_3)
  show ?thesis
    using h get_cfn_stack_events_pages [OF h]
    by (simp add: page_events_def w0_def)
qed


text \<open>
  Claim C3, as amended. When a call of the exchange raises, on the first page or a later
  one: for a \<open>ClientError\<close> the function returns normally with exactly the events of the
  pages received before (none when the first call raised) and hands one record of
  severity \<open>ERROR\<close> to the logger; an exception of any other class is not caught and
  leaves the function.
\<close>

theorem get_cfn_stack_events_failure:
  assumes "exchange E region stackname (ext w) (Some None) pages (Some e) x'"
  shows "get_cfn_stack_events E w stackname region =
           (case e of
              ClientError m \<Rightarrow>
                Some (Inr (concat (map page_events pages)),
                      w\<lparr>ext := x',
                        logs := logs w @ [(ERROR, None, events_error_msg stackname region e)],
                        calls := calls w @ requests region stackname (Some None) pages\<rparr>)
            | _ \<Rightarrow>
                Some (Inl e,
                      w\<lparr>ext := x',
                        calls := calls w @ requests region stackname (Some None) pages\<rparr>))"
  by (cases e) (simp_all add: get_cfn_stack_events_def try_describe_exchange [OF assms] LOG_def)

theorem get_cfn_stack_events_failure_witness:
  "exchange demo ''eu'' ''broken'' (ext w0) (Some None)
     [\<lparr>StackEvents = Some [demo_event ''e1'' ''CREATE_COMPLETE'' None], NextToken = Some ''t1''\<rparr>]
     (Some (ClientError ''Throttling'')) 2
   \<and> get_cfn_stack_events demo w0 ''broken'' ''eu'' =
       Some (Inr [demo_event ''e1'' ''CREATE_COMPLETE'' None],
             \<lparr>ext = 2, files = (\<lambda>path. None),
              logs = [(ERROR, None, events_error_msg ''broken'' ''eu'' (ClientError ''Throttling''))],
              calls = [DescribeStackEvents ''eu'' ''broken'' None,
                       DescribeStackEvents ''eu'' ''broken'' (Some ''t1'')]\<rparr>)"
proof -
  have h: "exchange demo ''eu'' ''broken'' (ext w0) (Some None)
     [\<lparr>StackEvents = Some [demo_event ''e1'' ''CREATE_COMPLETE'' None], NextToken = Some ''t1''\<rparr>]
     (Some (ClientError ''Throttling'')) 2"
    by (simp add: demo_def demo_describe_def w0_def numeral_2_eq_2)
  show ?thesis
    using h get_cfn_stack_events_failure [OF h]
    by (simp add: page_events_def w0_def)
qed

text \<open>The claim as stated, for a failure that is no \<open>ClientError\<close>: the provider
  cannot be reached, the exception reaches the caller and nothing is logged.\<close>

theorem get_cfn_stack_events_propagates:
  "get_cfn_stack_events demo w0 ''offline'' ''eu'' =
     Some (Inl (OtherError ''EndpointConnectionError''),
           w0\<lparr>ext := 1, calls := [DescribeStackEvents ''eu'' ''offline'' None]\<rparr>)"
  by (simp add: get_cfn_stack_events_def try_describe_def call_describe_def demo_def
        demo_describe_def w0_def)

subsection \<open>What fetching events leaves alone\<close>

lemma describes_only_simps [simp]:
  "describes_only []"
  "describes_only (DescribeStackEvents r s t # cs) = describes_only cs"
  "describes_only (cs @ ds) = (describes_only cs \<and> describes_only ds)"
  by (simp_all add: describes_only_def)

lemma describes_only_no_open: "describes_only cs \<Longrightarrow> Open path \<notin> set cs"
  by (auto simp: describes_only_def list_all_iff)

lemma describe_loop_frame:
  assumes "describe_loop E stackname region response acc w = Some y"
  shows "files (snd (snd y)) = files w \<and> logs (snd (snd y)) = logs w
     \<and> (\<exists>cs. calls (snd (snd y)) = calls w @ cs \<and> describes_only cs)"
proof (rule describe_loop.raw_induct
         [where P = "\<lambda>E stackname region response acc w y.
                       files (snd (snd y)) = files w \<and> logs (snd (snd y)) = logs w
                       \<and> (\<exists>cs. calls (snd (snd y)) = calls w @ cs \<and> describes_only cs)",
          OF _ assms], goal_cases)
  case (1 loop E stackname region response stack_events w y)
  show ?case
  proof (cases "NextToken response")
    case None
    with 1(2) show ?thesis by auto
  next
    case (Some tok)
    obtain res x1 where d: "describe_stack_events E (ext w) region stackname (Some tok) = (res, x1)"
      by (cases "describe_stack_events E (ext w) region stackname (Some tok)")
    show ?thesis
    proof (cases res)
      case (Inl e)
      with 1(2) Some d show ?thesis by (auto simp: call_describe_def)
    next
      case (Inr response')
      show ?thesis
      proof (cases "StackEvents response'")
        case None
        with 1(2) Some d Inr show ?thesis by (auto simp: call_describe_def)
      next
        case (Some evs)
        with 1(2) \<open>NextToken response = Some tok\<close> d Inr
        have "loop E stackname region response' (stack_events @ evs)
                (w\<lparr>ext := x1,
                   calls := calls w @ [DescribeStackEvents region stackname (Some tok)]\<rparr>)
              = Some y"
          by (simp add: call_describe_def)
        from 1(1) [OF this] show ?thesis by auto
      qed
    qed
  qed
qed

lemma try_describe_frame:
  assumes "try_describe E w stackname region = Some (exc, evs, w')"
  shows "files w' = files w \<and> logs w' = logs w
         \<and> (\<exists>cs. calls w' = calls w @ cs \<and> describes_only cs)"
proof -
  obtain res x1 where d: "describe_stack_events E (ext w) region stackname None = (res, x1)"
    by (cases "describe_stack_events E (ext w) region stackname None")
  show ?thesis
  proof (cases res)
    case (Inl e)
    with assms d show ?thesis by (auto simp: try_describe_def call_describe_def)
  next
    case (Inr response)
    show ?thesis
    proof (cases "StackEvents response")
      case None
      with assms d Inr show ?thesis by (auto simp: try_describe_def call_describe_def)
    next
      case (Some evs0)
      with assms d Inr
      have "describe_loop E stackname region response ([] @ evs0)
              (w\<lparr>ext := x1, calls := calls w @ [DescribeStackEvents region stackname None]\<rparr>)
            = Some (exc, evs, w')"
        by (simp add: try_describe_def call_describe_def)
      from describe_loop_frame [OF this] show ?thesis by auto
    qed
  qed
qed

lemma get_cfn_stack_events_frame:
  assumes "get_cfn_stack_events E w stackname region = Some (res, w')"
  shows "files w' = files w \<and> (\<exists>ls. logs w' = logs w @ ls)
         \<and> (\<exists>cs. calls w' = calls w @ cs \<and> describes_only cs)"
proof -
  from assms obtain exc evs w1 where t: "try_describe E w stackname region = Some (exc, evs, w1)"
    by (cases "try_describe E w stackname region") (auto simp: get_cfn_stack_events_def)
  from try_describe_frame [OF t] assms t show ?thesis
    by (auto simp: get_cfn_stack_events_def LOG_def split: option.splits exn.splits)
qed

lemma get_cfnlogs_frame:
  assumes "get_cfnlogs E w stackname region = Some (res, w')"
  shows "files w' = files w \<and> (\<exists>ls. logs w' = logs w @ ls)
         \<and> (\<exists>cs. calls w' = calls w @ cs \<and> describes_only cs)"
proof -
  let ?w = "LOG INFO None (''Collecting logs for '' @ stackname @ [CHR 0x22] @ NL) w"
  from assms obtain r1 where g: "get_cfn_stack_events E ?w stackname region = Some (r1, w')"
    by (auto simp: get_cfnlogs_def split: option.splits sum.splits)
  from get_cfn_stack_events_frame [OF g] show ?thesis
    by (auto simp: LOG_def)
qed

lemma get_cfnlogs_collect:
  assumes "get_cfnlogs E w stackname region = Some (Inr cfnlogs, w')"
  shows "\<exists>stack_events. collect_events stack_events [] = Inr cfnlogs"
  using assms by (auto simp: get_cfnlogs_def split: option.splits sum.splits)

subsection \<open>A stack without events\<close>

text \<open>
  Claim C4. When the normalized events of a stack are the empty list, \<open>write_logs\<close> returns
  normally, with every file as it was (none created, none extended) and without a call
  of \<open>open\<close>, and hands one record of severity \<open>ERROR\<close> to the logger; the loop over the
  resources of a parent goes on with the next resource.
\<close>

theorem write_logs_no_events:
  assumes "parse_stack_info E stack_id = \<lparr>stack_name = stackname, stack_region = region\<rparr>"
    and "get_cfnlogs E w stackname region = Some (Inr [], w1)"
  shows "\<exists>w'. write_logs (Suc n) E w stack_id logpath = Some (Inr (), w')
           \<and> files w' = files w
           \<and> (\<exists>cs. calls w' = calls w @ cs \<and> (\<forall>path. Open path \<notin> set cs))
           \<and> logs w' = logs w1 @ [(ERROR, None,
                 ''No event logs found. Something went wrong at describe event call.'' @ NL)]
           \<and> (\<forall>resource rest. resourceType resource = ''AWS::CloudFormation::Stack''
                 \<longrightarrow> physicalId resource = stack_id
                 \<longrightarrow> write_logs_resources (Suc n) E w (resource # rest) logpath =
                       write_logs_resources (Suc n) E w' rest logpath)"
proof -
  let ?w' = "LOG ERROR None
               (''No event logs found. Something went wrong at describe event call.'' @ NL) w1"
  have run: "write_logs (Suc n) E w stack_id logpath = Some (Inr (), ?w')"
    using assms by simp
  from get_cfnlogs_frame [OF assms(2)] obtain cs where
    "files w1 = files w" "calls w1 = calls w @ cs" "describes_only cs" by blast
  then have "files ?w' = files w" "calls ?w' = calls w @ cs" "\<forall>path. Open path \<notin> set cs"
    by (simp_all add: LOG_def describes_only_no_open)
  moreover have "logs ?w' = logs w1 @ [(ERROR, None,
                 ''No event logs found. Something went wrong at describe event call.'' @ NL)]"
    by (simp add: LOG_def)
  moreover have "\<forall>resource rest. resourceType resource = ''AWS::CloudFormation::Stack''
                 \<longrightarrow> physicalId resource = stack_id
                 \<longrightarrow> write_logs_resources (Suc n) E w (resource # rest) logpath =
                       write_logs_resources (Suc n) E ?w' rest logpath"
    using run by (simp del: write_logs.simps)
  ultimately show ?thesis using run by blast
qed


theorem write_logs_no_events_witness:
  "parse_stack_info demo ''childB'' = \<lparr>stack_name = ''childB'', stack_region = ''eu''\<rparr>
   \<and> get_cfnlogs demo w0 ''childB'' ''eu'' =
       Some (Inr [],
             w0\<lparr>ext := 1,
                logs := [(INFO, None, ''Collecting logs for childB'' @ [CHR 0x22] @ NL),
                         (ERROR, None,
                          events_error_msg ''childB'' ''eu'' (ClientError ''ValidationError''))],
                calls := [DescribeStackEvents ''eu'' ''childB'' None]\<rparr>)
   \<and> (\<exists>w'. write_logs (Suc 0) demo w0 ''childB'' ''log'' = Some (Inr (), w')
          \<and> files w' = files w0
          \<and> calls w' = [DescribeStackEvents ''eu'' ''childB'' None]
          \<and> logs w' =
              [(INFO, None, ''Collecting logs for childB'' @ [CHR 0x22] @ NL),
               (ERROR, None,
                events_error_msg ''childB'' ''eu'' (ClientError ''ValidationError'')),
               (ERROR, None,
                ''No event logs found. Something went wrong at describe event call.'' @ NL)])"
proof -
  let ?w1 = "w0\<lparr>ext := 1,
                logs := [(INFO, None, ''Collecting logs for childB'' @ [CHR 0x22] @ NL),
                         (ERROR, None,
                          events_error_msg ''childB'' ''eu'' (ClientError ''ValidationError''))],
                calls := [DescribeStackEvents ''eu'' ''childB'' None]\<rparr>"
  have h1: "parse_stack_info demo ''childB'' = \<lparr>stack_name = ''childB'', stack_region = ''eu''\<rparr>"
    by (simp add: demo_def)
  have h2: "get_cfnlogs demo w0 ''childB'' ''eu'' = Some (Inr [], ?w1)"
    by (simp add: get_cfnlogs_def get_cfn_stack_events_def try_describe_def call_describe_def
          LOG_def demo_def demo_describe_def w0_def)
  from write_logs_no_events [OF h1 h2, of 0 "''log''"] obtain w' where
    run: "write_logs (Suc 0) demo w0 ''childB'' ''log'' = Some (Inr (), w')"
    and fs: "files w' = files w0"
    and ls: "logs w' = logs ?w1 @ [(ERROR, None,
               ''No event logs found. Something went wrong at describe event call.'' @ NL)]"
    by blast
  have "write_logs (Suc 0) demo w0 ''childB'' ''log'' =
          Some (Inr (), LOG ERROR None
            (''No event logs found. Something went wrong at describe event call.'' @ NL) ?w1)"
    by (simp add: h1 h2 Let_def)
  with run have "calls w' = calls ?w1"
    by (simp add: LOG_def)
  then have cs: "calls w' = [DescribeStackEvents ''eu'' ''childB'' None]"
    by simp
  from ls have ls': "logs w' =
              [(INFO, None, ''Collecting logs for childB'' @ [CHR 0x22] @ NL),
               (ERROR, None,
                events_error_msg ''childB'' ''eu'' (ClientError ''ValidationError'')),
               (ERROR, None,
                ''No event logs found. Something went wrong at describe event call.'' @ NL)]"
    by simp
  from h1 h2 run fs cs ls' show ?thesis
    by blast
qed

subsection \<open>The normalized events\<close>

lemmas demo_defs = demo_def demo_describe_def demo_resources_def demo_event_def

lemmas run_defs = get_cfnlogs_def get_cfn_stack_events_def try_describe_def call_describe_def
  describe_loop.simps event_details_def LOG_def Let_def outcome_reason_def announce_def
  call_now_def write_report_def fopen_append_def call_get_resources_def

lemma collect_events_acc:
  "collect_events xs acc = Inr evs \<Longrightarrow>
     \<exists>ds. evs = acc @ ds \<and> list_all2 (\<lambda>x d. event_details x = Inr d) xs ds"
proof (induction xs arbitrary: acc)
  case Nil
  then show ?case by simp
next
  case (Cons x xs)
  then obtain d where d: "event_details x = Inr d"
    and rest: "collect_events xs (acc @ [d]) = Inr evs"
    by (auto split: sum.splits)
  from Cons.IH [OF rest] obtain ds where "evs = (acc @ [d]) @ ds"
    and "list_all2 (\<lambda>x d. event_details x = Inr d) xs ds" by blast
  with d show ?case by (intro exI [of _ "d # ds"]) simp
qed

lemma collect_events_pointwise:
  assumes "collect_events stack_events [] = Inr events"
  shows "length events = length stack_events"
    and "i < length stack_events \<Longrightarrow> event_details (stack_events ! i) = Inr (events ! i)"
proof -
  from collect_events_acc [OF assms]
  have "list_all2 (\<lambda>x d. event_details x = Inr d) stack_events events" by simp
  then show "length events = length stack_events"
    and "i < length stack_events \<Longrightarrow> event_details (stack_events ! i) = Inr (events ! i)"
    by (simp_all add: list_all2_conv_all_nth)
qed

lemma event_details_reason:
  "event_details event = Inr d \<Longrightarrow>
     map_of d ''ResourceStatusReason'' =
       Some (case map_of event ''ResourceStatusReason'' of None \<Rightarrow> '''' | Some r \<Rightarrow> r)"
  by (auto simp: event_details_def split: option.splits)

lemma event_details_status:
  "event_details event = Inr d \<Longrightarrow> map_of d ''ResourceStatus'' = map_of event ''ResourceStatus''"
  "event_details event = Inr d \<Longrightarrow> map_of event ''ResourceStatus'' \<noteq> None"
  by (auto simp: event_details_def split: option.splits)

lemma event_details_ok:
  "\<forall>k\<in>set mandatory_keys. map_of event k \<noteq> None \<Longrightarrow> \<exists>d. event_details event = Inr d"
  by (auto simp: event_details_def mandatory_keys_def split: option.splits)

lemma event_details_key_error:
  "\<not> (\<forall>k\<in>set mandatory_keys. map_of event k \<noteq> None) \<Longrightarrow>
     \<exists>k\<in>set mandatory_keys. event_details event = Inl (KeyError k)"
  by (auto simp: event_details_def mandatory_keys_def split: option.splits)

lemma collect_events_ok:
  "\<forall>event\<in>set xs. \<forall>k\<in>set mandatory_keys. map_of event k \<noteq> None \<Longrightarrow>
     \<exists>evs. collect_events xs acc = Inr evs"
proof (induction xs arbitrary: acc)
  case Nil
  show ?case by simp
next
  case (Cons x xs)
  from Cons.prems have "\<forall>k\<in>set mandatory_keys. map_of x k \<noteq> None" by simp
  from event_details_ok [OF this] obtain d where "event_details x = Inr d" ..
  moreover from Cons.prems
  have "\<forall>event\<in>set xs. \<forall>k\<in>set mandatory_keys. map_of event k \<noteq> None" by simp
  from Cons.IH [OF this, of "acc @ [d]"] obtain evs where
    "collect_events xs (acc @ [d]) = Inr evs" ..
  ultimately show ?case by simp
qed

lemma collect_events_missing_key:
  "\<not> (\<forall>event\<in>set xs. \<forall>k\<in>set mandatory_keys. map_of event k \<noteq> None) \<Longrightarrow>
     \<exists>k\<in>set mandatory_keys. collect_events xs acc = Inl (KeyError k)"
proof (induction xs arbitrary: acc)
  case Nil
  then show ?case by simp
next
  case (Cons x xs)
  show ?case
  proof (cases "\<forall>k\<in>set mandatory_keys. map_of x k \<noteq> None")
    case True
    from event_details_ok [OF this] obtain d where d: "event_details x = Inr d" ..
    from True Cons.prems
    have "\<not> (\<forall>event\<in>set xs. \<forall>k\<in>set mandatory_keys. map_of event k \<noteq> None)" by simp
    from Cons.IH [OF this, of "acc @ [d]"] d show ?thesis by simp
  next
    case False
    from event_details_key_error [OF this] obtain k where
      "k \<in> set mandatory_keys" "event_details x = Inl (KeyError k)" by blast
    then show ?thesis by (intro bexI [of _ k]) simp_all
  qed
qed



text \<open>
  Claim C10, as amended. When every raw event has the four keys that are read by
  subscript, the normalization returns a list of the same length, each element the
  projection of the raw event at the same position; it takes and returns no state.
  When some raw event lacks one of the four keys, the result is a \<open>KeyError\<close> for one of
  them.
\<close>

theorem collect_events_mandatory_keys:
  "(if \<forall>event\<in>set stack_events. \<forall>k\<in>set mandatory_keys. map_of event k \<noteq> None
    then \<exists>events. collect_events stack_events [] = Inr events
           \<and> length events = length stack_events
           \<and> (\<forall>i<length stack_events. event_details (stack_events ! i) = Inr (events ! i))
    else \<exists>k\<in>set mandatory_keys. collect_events stack_events [] = Inl (KeyError k))"
proof (cases "\<forall>event\<in>set stack_events. \<forall>k\<in>set mandatory_keys. map_of event k \<noteq> None")
  case True
  from collect_events_ok [OF this, of "[]"] obtain events where
    e: "collect_events stack_events [] = Inr events" ..
  have "length events = length stack_events
        \<and> (\<forall>i<length stack_events. event_details (stack_events ! i) = Inr (events ! i))"
    using collect_events_pointwise [OF e] by simp
  with e have ex: "\<exists>events. collect_events stack_events [] = Inr events
           \<and> length events = length stack_events
           \<and> (\<forall>i<length stack_events. event_details (stack_events ! i) = Inr (events ! i))"
    by blast
  show ?thesis by (subst if_P [OF True]) (rule ex)
next
  case False
  show ?thesis
    by (subst if_not_P [OF False]) (rule collect_events_missing_key [OF False])
qed

theorem collect_events_mandatory_keys_witness:
  "map_of (demo_event ''e1'' ''CREATE_COMPLETE'' None) ''Timestamp'' = Some ''t''
   \<and> map_of (demo_event ''e1'' ''CREATE_COMPLETE'' None) ''ResourceStatus'' = Some ''CREATE_COMPLETE''
   \<and> map_of (demo_event ''e1'' ''CREATE_COMPLETE'' None) ''ResourceType'' = Some ''AWS::S3::Bucket''
   \<and> map_of (demo_event ''e1'' ''CREATE_COMPLETE'' None) ''LogicalResourceId'' = Some ''e1''
   \<and> collect_events [demo_event ''e1'' ''CREATE_COMPLETE'' None] [] =
       Inr [[(''TimeStamp'', ''t''), (''ResourceStatus'', ''CREATE_COMPLETE''),
             (''ResourceType'', ''AWS::S3::Bucket''), (''LogicalResourceId'', ''e1''),
             (''ResourceStatusReason'', '''')]]"
proof -
  have k: "map_of (demo_event ''e1'' ''CREATE_COMPLETE'' None) ''Timestamp'' = Some ''t''"
    "map_of (demo_event ''e1'' ''CREATE_COMPLETE'' None) ''ResourceStatus'' = Some ''CREATE_COMPLETE''"
    "map_of (demo_event ''e1'' ''CREATE_COMPLETE'' None) ''ResourceType'' = Some ''AWS::S3::Bucket''"
    "map_of (demo_event ''e1'' ''CREATE_COMPLETE'' None) ''LogicalResourceId'' = Some ''e1''"
    by (simp_all add: demo_event_def)
  then have h: "\<forall>event\<in>set [demo_event ''e1'' ''CREATE_COMPLETE'' None].
             \<forall>k\<in>set mandatory_keys. map_of event k \<noteq> None"
    by (simp add: mandatory_keys_def)
  have "\<exists>events. collect_events [demo_event ''e1'' ''CREATE_COMPLETE'' None] [] = Inr events
           \<and> length events = length [demo_event ''e1'' ''CREATE_COMPLETE'' None]
           \<and> (\<forall>i<length [demo_event ''e1'' ''CREATE_COMPLETE'' None].
                 event_details ([demo_event ''e1'' ''CREATE_COMPLETE'' None] ! i) = Inr (events ! i))"
    using collect_events_mandatory_keys [of "[demo_event ''e1'' ''CREATE_COMPLETE'' None]"]
    unfolding if_P [OF h] .
  then obtain events where
    c: "collect_events [demo_event ''e1'' ''CREATE_COMPLETE'' None] [] = Inr events"
    and l: "length events = 1"
    and d: "event_details (demo_event ''e1'' ''CREATE_COMPLETE'' None) = Inr (events ! 0)"
    by auto
  from l have "events = [events ! 0]"
    by (cases events) auto
  with d have "events = [[(''TimeStamp'', ''t''), (''ResourceStatus'', ''CREATE_COMPLETE''),
             (''ResourceType'', ''AWS::S3::Bucket''), (''LogicalResourceId'', ''e1''),
             (''ResourceStatusReason'', '''')]]"
    by (simp add: event_details_def demo_event_def)
  with c k show ?thesis by simp
qed

text \<open>The claim as stated, for a raw event without the key \<open>ResourceStatus\<close>.\<close>

theorem collect_events_key_error:
  "collect_events [[(''Timestamp'', ''t''), (''LogicalResourceId'', ''id'')]] [] =
     Inl (KeyError ''ResourceStatus'')"
  by (simp add: event_details_def)

text \<open>
  Claim C8. Every normalized event that \<open>get_cfnlogs\<close> returns has the key
  \<open>ResourceStatusReason\<close>, so for a non-empty list from \<open>get_cfnlogs\<close> the reason is
  decided by the first raw event \<open>first\<close> alone: the fixed text for the status
  \<open>CREATE_COMPLETE\<close>, otherwise the reason of \<open>first\<close>, and the empty string, not
  \<open>Unknown\<close>, where \<open>first\<close> has none.
\<close>

theorem write_logs_reason_never_unknown:
  assumes "get_cfnlogs E w stackname region = Some (Inr cfnlogs, w')" and "cfnlogs \<noteq> []"
  shows "(\<forall>d\<in>set cfnlogs. map_of d ''ResourceStatusReason'' \<noteq> None)
         \<and> (\<exists>first rest st.
               get_cfn_stack_events E
                 (LOG INFO None (''Collecting logs for '' @ stackname @ [CHR 0x22] @ NL) w)
                 stackname region = Some (Inr (first # rest), w')
               \<and> map_of first ''ResourceStatus'' = Some st
               \<and> outcome_reason cfnlogs =
                   Inr (if st = ''CREATE_COMPLETE'' then ''Stack launch was successful''
                        else (case map_of first ''ResourceStatusReason'' of
                                None \<Rightarrow> ''''
                              | Some r \<Rightarrow> r)))"
proof -
  from assms(1) obtain stack_events where
    fetch: "get_cfn_stack_events E
              (LOG INFO None (''Collecting logs for '' @ stackname @ [CHR 0x22] @ NL) w)
              stackname region = Some (Inr stack_events, w')"
    and coll: "collect_events stack_events [] = Inr cfnlogs"
    by (auto simp: get_cfnlogs_def split: option.splits sum.splits)
  note pw = collect_events_pointwise [OF coll]
  have keys: "\<forall>d\<in>set cfnlogs. map_of d ''ResourceStatusReason'' \<noteq> None"
  proof
    fix d assume "d \<in> set cfnlogs"
    then obtain i where "i < length cfnlogs" "d = cfnlogs ! i"
      by (auto simp: in_set_conv_nth)
    with pw have "event_details (stack_events ! i) = Inr d" by simp
    from event_details_reason [OF this] show "map_of d ''ResourceStatusReason'' \<noteq> None" by simp
  qed
  from assms(2) pw(1) obtain first rest where se: "stack_events = first # rest"
    by (cases stack_events) auto
  from assms(2) obtain d ds where cl: "cfnlogs = d # ds" by (cases cfnlogs) auto
  from pw(2) [of 0] se cl have d: "event_details first = Inr d" by simp
  from event_details_status [OF d] obtain st where
    st: "map_of first ''ResourceStatus'' = Some st" "map_of d ''ResourceStatus'' = Some st"
    by auto
  have "outcome_reason cfnlogs =
          Inr (if st = ''CREATE_COMPLETE'' then ''Stack launch was successful''
               else (case map_of first ''ResourceStatusReason'' of
                       None \<Rightarrow> '''' | Some r \<Rightarrow> r))"
    using st(2) event_details_reason [OF d] by (simp add: outcome_reason_def cl)
  with keys fetch se st(1) show ?thesis by blast
qed


theorem write_logs_reason_never_unknown_witness:
  "get_cfnlogs demo w0 ''rolling'' ''eu'' =
     Some (Inr [[(''TimeStamp'', ''t''), (''ResourceStatus'', ''ROLLBACK_IN_PROGRESS''),
                 (''ResourceType'', ''AWS::S3::Bucket''), (''LogicalResourceId'', ''c''),
                 (''ResourceStatusReason'', '''')]],
           w0\<lparr>ext := 1,
              logs := [(INFO, None, ''Collecting logs for rolling'' @ [CHR 0x22] @ NL)],
              calls := [DescribeStackEvents ''eu'' ''rolling'' None]\<rparr>)
   \<and> outcome_reason
         [[(''TimeStamp'', ''t''), (''ResourceStatus'', ''ROLLBACK_IN_PROGRESS''),
           (''ResourceType'', ''AWS::S3::Bucket''), (''LogicalResourceId'', ''c''),
           (''ResourceStatusReason'', '''')]] = Inr ''''"
proof -
  let ?cfnlogs = "[[(''TimeStamp'', ''t''), (''ResourceStatus'', ''ROLLBACK_IN_PROGRESS''),
                    (''ResourceType'', ''AWS::S3::Bucket''), (''LogicalResourceId'', ''c''),
                    (''ResourceStatusReason'', '''')]]"
  let ?w1 = "w0\<lparr>ext := 1,
                logs := [(INFO, None, ''Collecting logs for rolling'' @ [CHR 0x22] @ NL)],
                calls := [DescribeStackEvents ''eu'' ''rolling'' None]\<rparr>"
  have h1: "get_cfnlogs demo w0 ''rolling'' ''eu'' = Some (Inr ?cfnlogs, ?w1)"
    by (simp add: run_defs demo_defs w0_def)
  have h2: "?cfnlogs \<noteq> []" by simp
  have fetch: "get_cfn_stack_events demo
                 (LOG INFO None (''Collecting logs for '' @ ''rolling'' @ [CHR 0x22] @ NL) w0)
                 ''rolling'' ''eu'' =
               Some (Inr [demo_event ''c'' ''ROLLBACK_IN_PROGRESS'' None], ?w1)"
    by (simp add: run_defs demo_def demo_describe_def w0_def)
  from write_logs_reason_never_unknown [OF h1 h2] obtain first rest st where
    f: "get_cfn_stack_events demo
          (LOG INFO None (''Collecting logs for '' @ ''rolling'' @ [CHR 0x22] @ NL) w0)
          ''rolling'' ''eu'' = Some (Inr (first # rest), ?w1)"
    and st: "map_of first ''ResourceStatus'' = Some st"
    and r: "outcome_reason ?cfnlogs =
              Inr (if st = ''CREATE_COMPLETE'' then ''Stack launch was successful''
                   else (case map_of first ''ResourceStatusReason'' of
                           None \<Rightarrow> ''''
                         | Some r \<Rightarrow> r))"
    by blast
  from f fetch have first: "first = demo_event ''c'' ''ROLLBACK_IN_PROGRESS'' None" by simp
  from st have st': "st = ''ROLLBACK_IN_PROGRESS''"
    unfolding first by (simp add: demo_event_def)
  have none: "map_of first ''ResourceStatusReason'' = None"
    unfolding first by (simp add: demo_event_def)
  have "outcome_reason ?cfnlogs = Inr ''''"
    unfolding r st' none by simp
  with h1 show ?thesis by simp
qed

subsection \<open>One report after the other\<close>

lemma write_logs_seq_append:
  "write_logs_seq n E w (xs @ ys) =
     (case write_logs_seq n E w xs of
        None \<Rightarrow> None
      | Some (Inl e, w1) \<Rightarrow> Some (Inl e, w1)
      | Some (Inr u, w1) \<Rightarrow> write_logs_seq n E w1 ys)"
  by (induction xs arbitrary: w) (auto split: option.splits sum.splits)

lemma write_logs_resources_seq:
  "write_logs_resources n E w resources logpath =
     write_logs_seq n E w
       (map (\<lambda>r. (physicalId r, logpath))
          (filter (\<lambda>r. resourceType r = ''AWS::CloudFormation::Stack'') resources))"
  by (induction resources arbitrary: w) (auto split: option.splits sum.splits)

lemma createcfnlogs_stacks_seq:
  "createcfnlogs_stacks n E w stacks logpath =
     write_logs_seq n E w
       (map (\<lambda>stack. (StackId stack,
                       test_logpath logpath (stack_name (parse_stack_info E (StackId stack)))
                         (stack_region (parse_stack_info E (StackId stack))))) stacks)"
  by (induction stacks arbitrary: w) (auto simp: Let_def split: option.splits sum.splits)

lemma createcfnlogs_tests_seq:
  "createcfnlogs_tests n E w tests logpath =
     write_logs_seq n E w
       (map (\<lambda>stack. (StackId stack,
                       test_logpath logpath (stack_name (parse_stack_info E (StackId stack)))
                         (stack_region (parse_stack_info E (StackId stack)))))
          (concat (map get_test_stacks tests)))"
  by (induction tests arbitrary: w)
     (auto simp: write_logs_seq_append createcfnlogs_stacks_seq split: option.splits sum.splits)

text \<open>
  Claim C9. \<open>createcfnlogs\<close> is one call of \<open>write_logs\<close> after the other, in the order of
  the tests and, within a test, of its stacks: each with the identifier of the stack
  and the path made of the directory, \<open>/\<close>, the stack name and the region that the
  parser gives for the identifier, joined by \<open>-\<close>, and \<open>-cfnlogs.txt\<close>.
\<close>

theorem createcfnlogs_sequential:
  "createcfnlogs n E w testdata_list logpath =
     write_logs_seq n E (LOG INFO None ''Collecting CloudFormation Logs'' w)
       (map (\<lambda>stack. (StackId stack,
                       logpath @ ''/'' @ stack_name (parse_stack_info E (StackId stack))
                         @ ''-'' @ stack_region (parse_stack_info E (StackId stack))
                         @ ''-cfnlogs.txt''))
          (concat (map get_test_stacks testdata_list)))"
  by (simp add: createcfnlogs_def createcfnlogs_tests_seq test_logpath_def)

subsection \<open>The report of a stack and the reports below it\<close>

lemma report_block_chunks:
  "concat (report_head E region stackname reason cfnlogs) @ concat (report_foot tested_on) =
     report_block E region stackname reason cfnlogs tested_on"
  by (simp add: report_head_def report_foot_def report_block_def)

lemma fwrite_each_frame:
  "fwrite_each E path xs w = (res, w') \<Longrightarrow>
     ext w' = ext w \<and> logs w' = logs w \<and> calls w' = calls w
     \<and> (\<forall>q. q \<noteq> path \<longrightarrow> files w' q = files w q)
     \<and> (\<exists>s. content w' path = content w path @ s)"
proof (induction xs arbitrary: w)
  case Nil
  then show ?case by simp
next
  case (Cons x xs)
  show ?case
  proof (cases "can_write E path x")
    case False
    with Cons.prems show ?thesis by (simp add: fwrite_def)
  next
    case True
    let ?w1 = "w\<lparr>files := (files w)(path \<mapsto> content w path @ x)\<rparr>"
    from True Cons.prems have "fwrite_each E path xs ?w1 = (res, w')"
      by (simp add: fwrite_def)
    from Cons.IH [OF this] show ?thesis
      by (auto simp: content_def)
  qed
qed

lemma fwrite_each_all:
  "\<forall>s. can_write E path s \<Longrightarrow>
     \<exists>w'. fwrite_each E path xs w = (Inr (), w')
          \<and> content w' path = content w path @ concat xs"
proof (induction xs arbitrary: w)
  case Nil
  then show ?case by simp
next
  case (Cons x xs)
  let ?w1 = "w\<lparr>files := (files w)(path \<mapsto> content w path @ x)\<rparr>"
  from Cons.IH [OF Cons.prems, of ?w1] obtain w' where
    "fwrite_each E path xs ?w1 = (Inr (), w')"
    "content w' path = content ?w1 path @ concat xs" by blast
  with Cons.prems show ?case
    by (simp add: fwrite_def content_def)
qed

lemma announce_frame:
  "files (announce E w stackname region logpath reason) = files w"
  "ext (announce E w stackname region logpath reason) = snd (now_strftime E (ext w))"
  by (simp_all add: announce_def call_now_def LOG_def Let_def split: prod.splits)

lemma write_report_frame:
  assumes "write_report E w logpath region stackname reason cfnlogs = (res, w')"
  shows "(\<forall>q. q \<noteq> logpath \<longrightarrow> files w' q = files w q)
         \<and> (\<exists>s. content w' logpath = content w logpath @ s)"
proof (cases "can_open E logpath")
  case False
  with assms show ?thesis
    by (auto simp: write_report_def fopen_append_def content_def)
next
  case True
  let ?w1 = "w\<lparr>files := (files w)(logpath \<mapsto> content w logpath),
               calls := calls w @ [Open logpath]\<rparr>"
  have c1: "content ?w1 logpath = content w logpath"
    and f1: "\<forall>q. q \<noteq> logpath \<longrightarrow> files ?w1 q = files w q"
    by (simp_all add: content_def)
  obtain r2 w2 where
    h: "fwrite_each E logpath (report_head E region stackname reason cfnlogs) ?w1 = (r2, w2)"
    by (cases "fwrite_each E logpath (report_head E region stackname reason cfnlogs) ?w1")
  note fr2 = fwrite_each_frame [OF h]
  show ?thesis
  proof (cases r2)
    case (Inl e)
    with assms True h have "w' = w2"
      by (simp add: write_report_def fopen_append_def)
    with fr2 c1 f1 show ?thesis by auto
  next
    case (Inr u)
    obtain t x3 where n: "now_strftime E (ext w2) = (t, x3)"
      by (cases "now_strftime E (ext w2)")
    from assms True h Inr n
    have "fwrite_each E logpath (report_foot t) (w2\<lparr>ext := x3\<rparr>) = (res, w')"
      by (simp add: write_report_def fopen_append_def call_now_def)
    from fwrite_each_frame [OF this] fr2 c1 f1 show ?thesis
      by (auto simp: content_def)
  qed
qed

lemma write_report_all:
  assumes "can_open E logpath" and "\<forall>s. can_write E logpath s"
    and "now_strftime E (ext w) = (tested_on, x')"
  shows "\<exists>w'. write_report E w logpath region stackname reason cfnlogs = (Inr (), w')
           \<and> content w' logpath =
               content w logpath @ report_block E region stackname reason cfnlogs tested_on
           \<and> ext w' = x'"
proof -
  let ?w1 = "w\<lparr>files := (files w)(logpath \<mapsto> content w logpath),
               calls := calls w @ [Open logpath]\<rparr>"
  have c1: "content ?w1 logpath = content w logpath"
    by (simp add: content_def)
  from fwrite_each_all [OF assms(2), of "report_head E region stackname reason cfnlogs" ?w1]
  obtain w2 where
    h: "fwrite_each E logpath (report_head E region stackname reason cfnlogs) ?w1 = (Inr (), w2)"
    and c2: "content w2 logpath =
               content ?w1 logpath @ concat (report_head E region stackname reason cfnlogs)"
    by blast
  from fwrite_each_frame [OF h] have e2: "ext w2 = ext w" by simp
  let ?w3 = "w2\<lparr>ext := x'\<rparr>"
  from fwrite_each_all [OF assms(2), of "report_foot tested_on" ?w3] obtain w4 where
    f: "fwrite_each E logpath (report_foot tested_on) ?w3 = (Inr (), w4)"
    and c4: "content w4 logpath = content ?w3 logpath @ concat (report_foot tested_on)"
    by blast
  from fwrite_each_frame [OF f] have e4: "ext w4 = x'" by simp
  have c3: "content ?w3 logpath = content w2 logpath" by (simp add: content_def)
  have run: "write_report E w logpath region stackname reason cfnlogs = (Inr (), w4)"
    using assms(1,3) h f e2
    by (simp add: write_report_def fopen_append_def call_now_def)
  have "content w4 logpath =
          content w logpath @ report_block E region stackname reason cfnlogs tested_on"
    using c4 c3 c2 c1 by (simp add: report_block_chunks [symmetric])
  with run e4 show ?thesis by blast
qed

lemma call_get_resources_files:
  "call_get_resources E w stackname region = (res, w') \<Longrightarrow> files w' = files w"
  by (auto simp: call_get_resources_def split: prod.splits)

lemmas file_defs = fwrite_def report_head_def report_foot_def content_def

text \<open>The run of \<open>createcfnlogs\<close> on two tests with three stacks, by the equation of
  claim C9.\<close>

theorem createcfnlogs_sequential_witness:
  "\<exists>w'. createcfnlogs (Suc 0) demo w0
           [\<lparr>get_test_stacks = [\<lparr>StackId = ''childA''\<rparr>]\<rparr>,
            \<lparr>get_test_stacks = [\<lparr>StackId = ''childB''\<rparr>, \<lparr>StackId = ''rolling''\<rparr>]\<rparr>]
           ''out'' = Some (Inr (), w')
        \<and> calls w' =
            [DescribeStackEvents ''eu'' ''childA'' None, Open ''out/childA-eu-cfnlogs.txt'',
             GetResources ''childA'' ''eu'',
             DescribeStackEvents ''eu'' ''childB'' None,
             DescribeStackEvents ''eu'' ''rolling'' None, Open ''out/rolling-eu-cfnlogs.txt'',
             GetResources ''rolling'' ''eu'']"
  unfolding createcfnlogs_sequential
  by (simp add: run_defs demo_defs w0_def file_defs)

lemma get_cfnlogs_reason:
  assumes "get_cfnlogs E w stackname region = Some (Inr cfnlogs, w')" and "cfnlogs \<noteq> []"
  shows "\<exists>reason. outcome_reason cfnlogs = Inr reason"
proof -
  from assms(1) obtain stack_events where
    coll: "collect_events stack_events [] = Inr cfnlogs"
    by (auto simp: get_cfnlogs_def split: option.splits sum.splits)
  note pw = collect_events_pointwise [OF coll]
  from assms(2) pw(1) obtain first rest where se: "stack_events = first # rest"
    by (cases stack_events) auto
  from assms(2) obtain d ds where cl: "cfnlogs = d # ds" by (cases cfnlogs) auto
  from pw(2) [of 0] se cl have d: "event_details first = Inr d" by simp
  from event_details_status [OF d] obtain st where "map_of d ''ResourceStatus'' = Some st"
    by auto
  then show ?thesis
    by (auto simp: outcome_reason_def cl split: option.splits)
qed

text \<open>
  Claim C5. For a stack with events, \<open>write_logs\<close> writes its report, and an exception
  of \<open>open\<close> or of a \<open>write\<close> is the result of the call. After the report (which is
  written whenever the log file can be opened and written) it asks for the resources
  of the stack; what follows is exactly one call of \<open>write_logs\<close> per resource of type
  \<open>AWS::CloudFormation::Stack\<close>, in the order of the resources, on the \<open>physicalId\<close> of
  the resource and with the same log path, and no call for a resource of another type.
\<close>

theorem write_logs_recursion:
  assumes "parse_stack_info E stack_id = \<lparr>stack_name = stackname, stack_region = region\<rparr>"
    and "get_cfnlogs E w stackname region = Some (Inr cfnlogs, w1)"
    and "cfnlogs \<noteq> []"
  shows "\<exists>reason.
           outcome_reason cfnlogs = Inr reason
           \<and> write_logs (Suc n) E w stack_id logpath =
               (case write_report E (announce E w1 stackname region logpath reason)
                       logpath region stackname reason cfnlogs of
                  (Inl e, w3) \<Rightarrow> Some (Inl e, w3)
                | (Inr u, w3) \<Rightarrow>
                    (case call_get_resources E w3 stackname region of
                       (Inl e, w4) \<Rightarrow> Some (Inl e, w4)
                     | (Inr resources, w4) \<Rightarrow>
                         write_logs_seq n E w4
                           (map (\<lambda>r. (physicalId r, logpath))
                              (filter (\<lambda>r. resourceType r = ''AWS::CloudFormation::Stack'')
                                 resources))))
           \<and> (can_open E logpath \<and> (\<forall>s. can_write E logpath s) \<longrightarrow>
                (\<exists>w3. write_report E (announce E w1 stackname region logpath reason)
                         logpath region stackname reason cfnlogs = (Inr (), w3)))"
proof -
  from get_cfnlogs_reason [OF assms(2,3)] obtain reason where
    r: "outcome_reason cfnlogs = Inr reason" ..
  let ?w2 = "announce E w1 stackname region logpath reason"
  have run: "write_logs (Suc n) E w stack_id logpath =
          (case write_report E ?w2 logpath region stackname reason cfnlogs of
             (Inl e, w3) \<Rightarrow> Some (Inl e, w3)
           | (Inr u, w3) \<Rightarrow>
               (case call_get_resources E w3 stackname region of
                  (Inl e, w4) \<Rightarrow> Some (Inl e, w4)
                | (Inr resources, w4) \<Rightarrow>
                    write_logs_seq n E w4
                      (map (\<lambda>r. (physicalId r, logpath))
                         (filter (\<lambda>r. resourceType r = ''AWS::CloudFormation::Stack'')
                            resources))))"
    using assms r
    by (simp add: Let_def write_logs_resources_seq split: prod.splits sum.splits)
  have "can_open E logpath \<and> (\<forall>s. can_write E logpath s) \<longrightarrow>
          (\<exists>w3. write_report E ?w2 logpath region stackname reason cfnlogs = (Inr (), w3))"
  proof
    assume ok: "can_open E logpath \<and> (\<forall>s. can_write E logpath s)"
    obtain t x' where n: "now_strftime E (ext ?w2) = (t, x')"
      by (cases "now_strftime E (ext ?w2)")
    from write_report_all [OF conjunct1 [OF ok] conjunct2 [OF ok] n]
    show "\<exists>w3. write_report E ?w2 logpath region stackname reason cfnlogs = (Inr (), w3)"
      by blast
  qed
  with r run show ?thesis by blast
qed

theorem write_logs_recursion_witness:
  "parse_stack_info demo ''parent'' = \<lparr>stack_name = ''parent'', stack_region = ''eu''\<rparr>
   \<and> get_cfnlogs demo w0 ''parent'' ''eu'' =
       Some (Inr [[(''TimeStamp'', ''t''), (''ResourceStatus'', ''CREATE_COMPLETE''),
                   (''ResourceType'', ''AWS::S3::Bucket''), (''LogicalResourceId'', ''a''),
                   (''ResourceStatusReason'', '''')]],
             w0\<lparr>ext := 1,
                logs := [(INFO, None, ''Collecting logs for parent'' @ [CHR 0x22] @ NL)],
                calls := [DescribeStackEvents ''eu'' ''parent'' None]\<rparr>)
   \<and> can_open demo ''log''
   \<and> (\<forall>s. can_write demo ''log'' s)
   \<and> (\<exists>w4. write_logs (Suc (Suc 0)) demo w0 ''parent'' ''log'' =
              write_logs_seq (Suc 0) demo w4 [(''childA'', ''log''), (''childB'', ''log'')])
   \<and> (\<exists>w'. write_logs (Suc (Suc 0)) demo w0 ''parent'' ''log'' = Some (Inr (), w')
          \<and> calls w' =
              [DescribeStackEvents ''eu'' ''parent'' None, Open ''log'',
               GetResources ''parent'' ''eu'',
               DescribeStackEvents ''eu'' ''childA'' None, Open ''log'',
               GetResources ''childA'' ''eu'',
               DescribeStackEvents ''eu'' ''childB'' None])"
proof -
  let ?cfnlogs = "[[(''TimeStamp'', ''t''), (''ResourceStatus'', ''CREATE_COMPLETE''),
                    (''ResourceType'', ''AWS::S3::Bucket''), (''LogicalResourceId'', ''a''),
                    (''ResourceStatusReason'', '''')]]"
  let ?w1 = "w0\<lparr>ext := 1,
                logs := [(INFO, None, ''Collecting logs for parent'' @ [CHR 0x22] @ NL)],
                calls := [DescribeStackEvents ''eu'' ''parent'' None]\<rparr>"
  have h1: "parse_stack_info demo ''parent'' = \<lparr>stack_name = ''parent'', stack_region = ''eu''\<rparr>"
    by (simp add: demo_def)
  have h2: "get_cfnlogs demo w0 ''parent'' ''eu'' = Some (Inr ?cfnlogs, ?w1)"
    by (simp add: run_defs demo_defs w0_def)
  have h3: "?cfnlogs \<noteq> []" by simp
  have h4: "can_open demo ''log''" by (simp add: demo_def)
  have h5: "\<forall>s. can_write demo ''log'' s" by (simp add: demo_def)
  from write_logs_recursion [OF h1 h2 h3, of "Suc 0" "''log''"] h4 h5 obtain reason w3 where
    wr: "write_report demo (announce demo ?w1 ''parent'' ''eu'' ''log'' reason)
           ''log'' ''eu'' ''parent'' reason ?cfnlogs = (Inr (), w3)"
    and run: "write_logs (Suc (Suc 0)) demo w0 ''parent'' ''log'' =
            (case write_report demo (announce demo ?w1 ''parent'' ''eu'' ''log'' reason)
                    ''log'' ''eu'' ''parent'' reason ?cfnlogs of
               (Inl e, w3) \<Rightarrow> Some (Inl e, w3)
             | (Inr u, w3) \<Rightarrow>
                 (case call_get_resources demo w3 ''parent'' ''eu'' of
                    (Inl e, w4) \<Rightarrow> Some (Inl e, w4)
                  | (Inr resources, w4) \<Rightarrow>
                      write_logs_seq (Suc 0) demo w4
                        (map (\<lambda>r. (physicalId r, ''log''))
                           (filter (\<lambda>r. resourceType r = ''AWS::CloudFormation::Stack'')
                              resources))))"
    by blast
  have "call_get_resources demo w3 ''parent'' ''eu'' =
          (Inr [\<lparr>resourceType = ''AWS::CloudFormation::Stack'', physicalId = ''childA''\<rparr>,
                \<lparr>resourceType = ''AWS::S3::Bucket'', physicalId = ''bucket''\<rparr>,
                \<lparr>resourceType = ''AWS::CloudFormation::Stack'', physicalId = ''childB''\<rparr>],
           w3\<lparr>ext := Suc (ext w3), calls := calls w3 @ [GetResources ''parent'' ''eu'']\<rparr>)"
    by (simp add: call_get_resources_def demo_def demo_resources_def)
  with run wr have two: "write_logs (Suc (Suc 0)) demo w0 ''parent'' ''log'' =
      write_logs_seq (Suc 0) demo
        (w3\<lparr>ext := Suc (ext w3), calls := calls w3 @ [GetResources ''parent'' ''eu'']\<rparr>)
        [(''childA'', ''log''), (''childB'', ''log'')]"
    by simp
  have all: "\<exists>w'. write_logs (Suc (Suc 0)) demo w0 ''parent'' ''log'' = Some (Inr (), w')
          \<and> calls w' =
              [DescribeStackEvents ''eu'' ''parent'' None, Open ''log'',
               GetResources ''parent'' ''eu'',
               DescribeStackEvents ''eu'' ''childA'' None, Open ''log'',
               GetResources ''childA'' ''eu'',
               DescribeStackEvents ''eu'' ''childB'' None]"
    by (simp add: run_defs demo_defs w0_def file_defs)
  from h1 h2 h4 h5 two all show ?thesis by blast
qed

lemma write_logs_resources_appends:
  assumes "\<And>w stack_id res w'. write_logs n E w stack_id logpath = Some (res, w') \<Longrightarrow>
             \<exists>s. content w' logpath = content w logpath @ s"
  shows "write_logs_resources n E w resources logpath = Some (res, w') \<Longrightarrow>
           \<exists>s. content w' logpath = content w logpath @ s"
proof (induction resources arbitrary: w)
  case Nil
  then show ?case by simp
next
  case (Cons r rs)
  show ?case
  proof (cases "resourceType r = ''AWS::CloudFormation::Stack''")
    case False
    with Cons show ?thesis by simp
  next
    case True
    with Cons.prems obtain res1 w1 where
      one: "write_logs n E w (physicalId r) logpath = Some (res1, w1)"
      by (cases "write_logs n E w (physicalId r) logpath") auto
    from assms [OF one] obtain s1 where s1: "content w1 logpath = content w logpath @ s1" ..
    show ?thesis
    proof (cases res1)
      case (Inl e)
      with Cons.prems True one s1 show ?thesis by auto
    next
      case (Inr u)
      with Cons.prems True one have "write_logs_resources n E w1 rs logpath = Some (res, w')"
        by simp
      from Cons.IH [OF this] s1 show ?thesis by auto
    qed
  qed
qed

lemma write_logs_appends:
  "write_logs n E w stack_id logpath = Some (res, w') \<Longrightarrow>
     \<exists>s. content w' logpath = content w logpath @ s"
proof (induction n arbitrary: w stack_id res w')
  case 0
  then show ?case by simp
next
  case (Suc n)
  have loop: "\<And>w resources res w'.
      write_logs_resources n E w resources logpath = Some (res, w') \<Longrightarrow>
      \<exists>s. content w' logpath = content w logpath @ s"
    by (rule write_logs_resources_appends) (rule Suc.IH)
  obtain stackname region where
    info: "parse_stack_info E stack_id = \<lparr>stack_name = stackname, stack_region = region\<rparr>"
    by (cases "parse_stack_info E stack_id") auto
  from Suc.prems info obtain r1 w1 where g: "get_cfnlogs E w stackname region = Some (r1, w1)"
    by (cases "get_cfnlogs E w stackname region") (auto simp: Let_def)
  from get_cfnlogs_frame [OF g] have f1: "files w1 = files w" by simp
  show ?case
  proof (cases r1)
    case (Inl e)
    with Suc.prems info g f1 show ?thesis by (auto simp: Let_def content_def)
  next
    case (Inr cfnlogs)
    show ?thesis
    proof (cases "cfnlogs = []")
      case True
      with Suc.prems info g Inr f1 show ?thesis
        by (auto simp: Let_def content_def LOG_def)
    next
      case False
      from get_cfnlogs_reason [OF g [unfolded Inr] False] obtain reason where
        r: "outcome_reason cfnlogs = Inr reason" ..
      let ?w2 = "announce E w1 stackname region logpath reason"
      have c2: "content ?w2 logpath = content w logpath"
        by (simp add: content_def announce_frame f1)
      obtain res3 w3 where
        wr: "write_report E ?w2 logpath region stackname reason cfnlogs = (res3, w3)"
        by (cases "write_report E ?w2 logpath region stackname reason cfnlogs")
      from write_report_frame [OF wr] c2 obtain s3 where
        c3: "content w3 logpath = content w logpath @ s3" by auto
      show ?thesis
      proof (cases res3)
        case (Inl e)
        with Suc.prems info g Inr False r wr have "w' = w3" by (simp add: Let_def)
        with c3 show ?thesis by auto
      next
        case ok: (Inr u)
        obtain res4 w4 where gr: "call_get_resources E w3 stackname region = (res4, w4)"
          by (cases "call_get_resources E w3 stackname region")
        from call_get_resources_files [OF gr] c3
        have c4: "content w4 logpath = content w logpath @ s3"
          by (simp add: content_def)
        show ?thesis
        proof (cases res4)
          case (Inl e)
          with Suc.prems info g Inr False r wr ok gr have "w' = w4" by (simp add: Let_def)
          with c4 show ?thesis by auto
        next
          case rs: (Inr resources)
          with Suc.prems info g Inr False r wr ok gr
          have "write_logs_resources n E w4 resources logpath = Some (res, w')"
            by (simp add: Let_def)
          from loop [OF this] c4 show ?thesis by auto
        qed
      qed
    qed
  qed
qed

subsection \<open>The reports of a tree of stacks\<close>











text \<open>Where a write raises, the exception is the result and the file keeps what the writes
  before it have put there: on the path \<open>full\<close> of the small provider the report ends
  before the line \<open>Events:\<close>.\<close>

lemma write_logs_failed_write:
  "\<exists>w'. write_logs (Suc 0) demo w0 ''rolling'' ''full'' = Some (Inl (OSError ''full''), w')
        \<and> content w' ''full'' =
            replicate 77 (CHR ''-'') @ NL
            @ ''Region: eu'' @ NL
            @ ''StackName: rolling'' @ NL
            @ replicate 77 (CHR ''*'') @ NL
            @ ''ResourceStatusReason:  '' @ NL
            @ NL
            @ replicate 77 (CHR ''*'') @ NL
            @ replicate 77 (CHR ''*'') @ NL"
  by (simp add: run_defs demo_defs w0_def file_defs NL_def eval_nat_numeral)

subsection \<open>The bound on the depth of the calls\<close>

text \<open>A run that ends within the bound is the same run under any larger bound: the
  bound decides whether there is a result, never which.\<close>

lemma write_logs_resources_more:
  assumes "\<And>w stack_id r. write_logs n E w stack_id logpath = Some r \<Longrightarrow>
             write_logs (Suc n) E w stack_id logpath = Some r"
  shows "write_logs_resources n E w resources logpath = Some r \<Longrightarrow>
           write_logs_resources (Suc n) E w resources logpath = Some r"
proof (induction resources arbitrary: w)
  case Nil
  then show ?case by simp
next
  case (Cons x xs)
  show ?case
  proof (cases "resourceType x = ''AWS::CloudFormation::Stack''")
    case False
    with Cons show ?thesis by simp
  next
    case True
    with Cons.prems obtain res1 w1 where
      one: "write_logs n E w (physicalId x) logpath = Some (res1, w1)"
      by (cases "write_logs n E w (physicalId x) logpath") auto
    note more = assms [OF one]
    show ?thesis
    proof (cases res1)
      case (Inl e)
      with Cons.prems True one have r: "r = (Inl e, w1)" by simp
      from more True show ?thesis
        unfolding r Inl by (simp del: write_logs.simps)
    next
      case (Inr u)
      with Cons.prems True one have "write_logs_resources n E w1 xs logpath = Some r"
        by simp
      from Cons.IH [OF this] True one more Inr show ?thesis
        by (simp del: write_logs.simps)
    qed
  qed
qed

lemma write_logs_more:
  "write_logs n E w stack_id logpath = Some r \<Longrightarrow>
     write_logs (Suc n) E w stack_id logpath = Some r"
proof (induction n arbitrary: w stack_id r)
  case 0
  then show ?case by simp
next
  case (Suc n)
  have loop: "\<And>w resources r.
      write_logs_resources n E w resources logpath = Some r \<Longrightarrow>
      write_logs_resources (Suc n) E w resources logpath = Some r"
    by (rule write_logs_resources_more) (rule Suc.IH)
  from Suc.prems show ?case
    by (subst write_logs.simps, subst (asm) write_logs.simps)
       (auto simp: Let_def split: option.splits sum.splits prod.splits if_splits dest: loop)
qed

end
